theory Spec2Isabelle
  imports Main "HOL-Library.Word"
begin

section \<open>The HP Z3805A Time-of-Day bridge (gogpsdo.go)\<close>

text \<open>
  A shallow embedding of \<^verbatim>\<open>parseZ3805APacket\<close> and \<^verbatim>\<open>sendChronySample\<close>.
  A Go \<^verbatim>\<open>byte\<close> is an \<open>8 word\<close>; \<^verbatim>\<open>int(data[i])\<close> is \<open>uint (data ! i)\<close>. Go's
  \<^verbatim>\<open>int\<close> is 64 bits wide on the platforms the program compiles for; every value the
  parser computes from sixteen bytes stays far below that width, so \<open>int\<close> is used
  without wrap-around.
\<close>

type_synonym byte = "8 word"

subsection \<open>The part of Go's package time the parser calls\<close>

text \<open>
  \<^verbatim>\<open>time.Time\<close> values of the program are all in UTC. An instant is modelled by its Unix
  seconds and its nanosecond part, which is what \<^verbatim>\<open>Unix()\<close> and \<^verbatim>\<open>Nanosecond()\<close> read.
  The calendar functions follow package time: \<^verbatim>\<open>Date\<close> normalises its arguments and
  counts days in cycles of 400, 100, 4 and 1 years; \<^verbatim>\<open>absDate\<close> cuts the same
  cycles off a day count. The methods \<^verbatim>\<open>t.Year()\<close>, \<^verbatim>\<open>t.AddDate(..)\<close> and so on are
  \<open>Time_Year t\<close>, \<open>Time_AddDate .. t\<close>. Days are counted from January 1 of year 1 (the epoch of
  the library's internal seconds), which is 719162 days before the Unix epoch. The
  library divides unsigned counts; \<open>div\<close> and \<open>mod\<close> on \<open>int\<close> agree with that for
  every instant from year 1 on, and the parser only builds instants of the years 2000
  to 2100.
\<close>

record Time =
  unixSec :: int
  nsec :: int

definition secondsPerDay :: int where
  "secondsPerDay = 86400"

definition unixToInternal :: int where
  "unixToInternal = (1969 * 365 + 1969 div 4 - 1969 div 100 + 1969 div 400) * secondsPerDay"

definition daysBefore :: "int list" where
  "daysBefore = [0, 31, 59, 90, 120, 151, 181, 212, 243, 273, 304, 334, 365]"

definition isLeap :: "int \<Rightarrow> bool" where
  "isLeap year \<longleftrightarrow> year mod 4 = 0 \<and> (year mod 100 \<noteq> 0 \<or> year mod 400 = 0)"

definition norm :: "int \<Rightarrow> int \<Rightarrow> int \<Rightarrow> int \<times> int" where
  "norm hi lo base =
     (let (hi1, lo1) =
            (if lo < 0
             then (let n = (- lo - 1) div base + 1 in (hi - n, lo + n * base))
             else (hi, lo))
      in if lo1 \<ge> base
         then (let n = lo1 div base in (hi1 + n, lo1 - n * base))
         else (hi1, lo1))"

definition daysSinceEpoch :: "int \<Rightarrow> int" where
  "daysSinceEpoch year =
     (let y = year - 1;
          n400 = y div 400;
          y1 = y - 400 * n400;
          n100 = y1 div 100;
          y2 = y1 - 100 * n100;
          n4 = y2 div 4;
          y3 = y2 - 4 * n4
      in 146097 * n400 + 36524 * n100 + 1461 * n4 + 365 * y3)"

definition Date :: "int \<Rightarrow> int \<Rightarrow> int \<Rightarrow> int \<Rightarrow> int \<Rightarrow> int \<Rightarrow> int \<Rightarrow> Time" where
  "Date year month day hour minute sec ns =
     (let (year1, m) = norm year (month - 1) 12;
          month1 = m + 1;
          (sec1, nsec1) = norm sec ns 1000000000;
          (min1, sec2) = norm minute sec1 60;
          (hour1, min2) = norm hour min1 60;
          (day1, hour2) = norm day hour1 24;
          d = daysSinceEpoch year1 + daysBefore ! nat (month1 - 1)
              + (if isLeap year1 \<and> month1 \<ge> 3 then 1 else 0)
              + (day1 - 1);
          abs_sec = d * secondsPerDay + (hour2 * 3600 + min2 * 60 + sec2)
      in \<lparr> unixSec = abs_sec - unixToInternal, nsec = nsec1 \<rparr>)"

definition abs_of :: "Time \<Rightarrow> int" where
  "abs_of t = unixSec t + unixToInternal"

text \<open>\<^verbatim>\<open>absDate\<close>: year and zero-based day of the year of a day count.\<close>

definition absYearDay :: "int \<Rightarrow> int \<times> int" where
  "absYearDay d0 =
     (let n400 = d0 div 146097;
          y400 = 400 * n400;
          d1 = d0 - 146097 * n400;
          n100a = d1 div 36524;
          n100 = n100a - n100a div 4;
          y100 = y400 + 100 * n100;
          d2 = d1 - 36524 * n100;
          n4 = d2 div 1461;
          y4 = y100 + 4 * n4;
          d3 = d2 - 1461 * n4;
          n1a = d3 div 365;
          n1 = n1a - n1a div 4;
          y1 = y4 + n1;
          d4 = d3 - 365 * n1
      in (y1 + 1, d4))"

text \<open>
  The second half of \<^verbatim>\<open>absDate\<close>: month and day of the month. The month is first
  estimated as if every month had 31 days and then adjusted by one.
\<close>

definition monthEstimate :: "int \<Rightarrow> int \<times> int" where
  "monthEstimate day =
     (let month = day div 31;
          end = daysBefore ! nat (month + 1)
      in if day \<ge> end
         then (month + 2, day - end + 1)
         else (month + 1, day - daysBefore ! nat month + 1))"

definition monthDay :: "int \<Rightarrow> int \<Rightarrow> int \<times> int" where
  "monthDay year yday =
     (if isLeap year \<and> yday > 31 + 29 - 1 then monthEstimate (yday - 1)
      else if isLeap year \<and> yday = 31 + 29 - 1 then (2, 29)
      else monthEstimate yday)"

definition absDate :: "int \<Rightarrow> int \<times> int \<times> int \<times> int" where
  "absDate abs_sec =
     (let (year, yday) = absYearDay (abs_sec div secondsPerDay);
          (month, day) = monthDay year yday
      in (year, month, day, yday))"

definition Time_Year :: "Time \<Rightarrow> int" where
  "Time_Year t = (case absDate (abs_of t) of (year, month, day, yday) \<Rightarrow> year)"

definition Time_Month :: "Time \<Rightarrow> int" where
  "Time_Month t = (case absDate (abs_of t) of (year, month, day, yday) \<Rightarrow> month)"

definition Time_Day :: "Time \<Rightarrow> int" where
  "Time_Day t = (case absDate (abs_of t) of (year, month, day, yday) \<Rightarrow> day)"

definition Time_YearDay :: "Time \<Rightarrow> int" where
  "Time_YearDay t = (case absDate (abs_of t) of (year, month, day, yday) \<Rightarrow> yday + 1)"

definition Time_Clock :: "Time \<Rightarrow> int \<times> int \<times> int" where
  "Time_Clock t =
     (let sec = abs_of t mod secondsPerDay;
          hour = sec div 3600;
          sec1 = sec - hour * 3600;
          minute = sec1 div 60;
          sec2 = sec1 - minute * 60
      in (hour, minute, sec2))"

definition Time_AddDate :: "int \<Rightarrow> int \<Rightarrow> int \<Rightarrow> Time \<Rightarrow> Time" where
  "Time_AddDate years months days t =
     (case Time_Clock t of (hour, minute, sec) \<Rightarrow>
        Date (Time_Year t + years) (Time_Month t + months) (Time_Day t + days) hour minute sec (nsec t))"

subsection \<open>The parser\<close>

datatype GPSDOStatus = GPSDOPowerUp | GPSDOHoldover | GPSDOLocked | GPSDOUnknown

record Z3805AData =
  Year :: int
  DayOfYear :: int
  Hour :: int
  Minute :: int
  Second :: int
  LeapSeconds :: int
  Status :: GPSDOStatus
  Valid :: bool
  Timestamp :: Time
  ParseTime :: Time

text \<open>The seven digit fields of lines 83 to 89, each the weighted sum of its bytes.\<close>

definition f_year :: "byte list \<Rightarrow> int" where
  "f_year data = 2000 + uint (data ! 0) * 10 + uint (data ! 1)"

definition f_dayOfYear :: "byte list \<Rightarrow> int" where
  "f_dayOfYear data = uint (data ! 2) * 100 + uint (data ! 3) * 10 + uint (data ! 4)"

definition f_hour :: "byte list \<Rightarrow> int" where
  "f_hour data = uint (data ! 5) * 10 + uint (data ! 6)"

definition f_minute :: "byte list \<Rightarrow> int" where
  "f_minute data = uint (data ! 7) * 10 + uint (data ! 8)"

definition f_second :: "byte list \<Rightarrow> int" where
  "f_second data = uint (data ! 9) * 10 + uint (data ! 10)"

definition f_leapSeconds :: "byte list \<Rightarrow> int" where
  "f_leapSeconds data = uint (data ! 11) * 10 + uint (data ! 12)"

definition f_statusVal :: "byte list \<Rightarrow> int" where
  "f_statusVal data = uint (data ! 13) * 10 + uint (data ! 14)"

text \<open>The range test of lines 92 and 93: true when the decode is rejected.\<close>

definition out_of_range :: "int \<Rightarrow> int \<Rightarrow> int \<Rightarrow> int \<Rightarrow> int \<Rightarrow> bool" where
  "out_of_range year dayOfYear hour minute second \<longleftrightarrow>
     year < 2000 \<or> year > 2099 \<or> dayOfYear < 1 \<or> dayOfYear > 366 \<or>
     hour > 23 \<or> minute > 59 \<or> second > 59"

text \<open>The \<^verbatim>\<open>switch statusVal\<close> of lines 99 to 108.\<close>

definition status_of :: "int \<Rightarrow> GPSDOStatus" where
  "status_of statusVal =
     (if statusVal = 0 then GPSDOLocked
      else if statusVal = 10 then GPSDOPowerUp
      else if statusVal = 100 then GPSDOHoldover
      else GPSDOUnknown)"

text \<open>Lines 111 to 114: the timestamp before the rollover fix.\<close>

definition rawTimestamp :: "int \<Rightarrow> int \<Rightarrow> int \<Rightarrow> int \<Rightarrow> int \<Rightarrow> Time" where
  "rawTimestamp year dayOfYear hour minute second =
     (let startOfYear = Date year 1 1 0 0 0 0;
          targetDate = Time_AddDate 0 0 (dayOfYear - 1) startOfYear
      in Date (Time_Year targetDate) (Time_Month targetDate) (Time_Day targetDate) hour minute second 0)"

text \<open>
  \<^verbatim>\<open>parseZ3805APacket\<close>. The value of \<^verbatim>\<open>time.Now()\<close> is the parameter \<open>now\<close>;
  \<^verbatim>\<open>nil\<close> is \<open>None\<close>. Go's \<^verbatim>\<open>||\<close> does not read \<^verbatim>\<open>data[15]\<close> when the length is
  wrong, hence the two nested tests.
\<close>

definition parseZ3805APacket :: "Time \<Rightarrow> byte list \<Rightarrow> Z3805AData option" where
  "parseZ3805APacket now data =
     (if length data \<noteq> 16 then None
      else if data ! 15 \<noteq> 0x0D then None
      else
        (let year = f_year data;
             dayOfYear = f_dayOfYear data;
             hour = f_hour data;
             minute = f_minute data;
             second = f_second data;
             leapSeconds = f_leapSeconds data;
             statusVal = f_statusVal data
         in if out_of_range year dayOfYear hour minute second then None
            else
              (let status = status_of statusVal;
                   timestamp = rawTimestamp year dayOfYear hour minute second;
                   (timestamp1, year1, dayOfYear1) =
                      (if year < 2020
                       then (let ts = Time_AddDate 0 0 7168 timestamp
                             in (ts, Time_Year ts, Time_YearDay ts))
                       else (timestamp, year, dayOfYear))
               in Some \<lparr> Year = year1,
                         DayOfYear = dayOfYear1,
                         Hour = hour,
                         Minute = minute,
                         Second = second,
                         LeapSeconds = leapSeconds,
                         Status = status,
                         Valid = (status = GPSDOLocked \<or> status = GPSDOHoldover),
                         Timestamp = timestamp1,
                         ParseTime = now \<rparr>)))"

subsection \<open>The sample record and its delivery\<close>

text \<open>
  \<^verbatim>\<open>sockSample\<close> holds a \<^verbatim>\<open>unix.Timeval\<close> whose two fields the program fills with
  \<^verbatim>\<open>int64\<close> values (the other copy of the source declares \<^verbatim>\<open>Sec int64\<close> and
  \<^verbatim>\<open>Usec int64\<close> directly). The \<^verbatim>\<open>float64\<close> field is kept as its IEEE 754 bit
  pattern, the 64-bit value \<^verbatim>\<open>binary.Write\<close> serialises; the pattern of 0.0 is 0.
  \<^verbatim>\<open>Nanosecond()\<close> is never negative, so Go's truncating \<^verbatim>\<open>/ 1000\<close> is \<open>div 1000\<close>.
\<close>

record Timeval =
  Sec :: "64 word"
  Usec :: "64 word"

record sockSample =
  Tv :: Timeval
  Offset :: "64 word"
  Pulse :: "32 word"
  Leap :: "32 word"
  Pad :: "32 word"
  Magic :: "32 word"

text \<open>\<^verbatim>\<open>binary.LittleEndian\<close>: the least significant byte first.\<close>

definition putUint32 :: "32 word \<Rightarrow> byte list" where
  "putUint32 v = [ucast v, ucast (drop_bit 8 v), ucast (drop_bit 16 v), ucast (drop_bit 24 v)]"

definition putUint64 :: "64 word \<Rightarrow> byte list" where
  "putUint64 v =
     [ucast v, ucast (drop_bit 8 v), ucast (drop_bit 16 v), ucast (drop_bit 24 v),
      ucast (drop_bit 32 v), ucast (drop_bit 40 v), ucast (drop_bit 48 v), ucast (drop_bit 56 v)]"

text \<open>
  \<^verbatim>\<open>binary.Write(buf, binary.LittleEndian, sample)\<close> writes the fields of the struct in
  declaration order with no padding between them; on a struct of fixed-size fields it
  does not fail.
\<close>

definition binaryWrite :: "sockSample \<Rightarrow> byte list" where
  "binaryWrite s =
     putUint64 (Sec (Tv s)) @ putUint64 (Usec (Tv s)) @ putUint64 (Offset s) @
     putUint32 (Pulse s) @ putUint32 (Leap s) @ putUint32 (Pad s) @ putUint32 (Magic s)"

text \<open>The struct literal of lines 155 to 165.\<close>

definition chronySample :: "Z3805AData \<Rightarrow> sockSample" where
  "chronySample d =
     \<lparr> Tv = \<lparr> Sec = word_of_int (unixSec (Timestamp d)),
              Usec = word_of_int (nsec (Timestamp d) div 1000) \<rparr>,
       Offset = 0,
       Pulse = 0,
       Leap = 0,
       Pad = 0,
       Magic = 0x534f434b \<rparr>"

text \<open>
  What \<^verbatim>\<open>sendChronySample\<close> does to the outside is a list of events, in order. Whether
  \<^verbatim>\<open>net.Dial\<close> and \<^verbatim>\<open>conn.Write\<close> succeed is decided by the environment: the two
  booleans. The deferred \<^verbatim>\<open>conn.Close()\<close> is the last event of every path that
  dialled. The mutex only guards the counter and is not modelled.
\<close>

datatype event =
    Dial string bool
  | SetWriteDeadline nat
  | Write "byte list" bool
  | Close
  | Log string

record Stats =
  totalPackets :: "64 word"
  validPackets :: "64 word"
  chronySamples :: "64 word"
  lastUpdate :: Time

record GPSDOChronySock =
  serialPort :: string
  sockPath :: string
  stats :: Stats

definition sendChronySample ::
  "bool \<Rightarrow> bool \<Rightarrow> GPSDOChronySock \<Rightarrow> Z3805AData option \<Rightarrow> GPSDOChronySock \<times> event list" where
  "sendChronySample dial_ok write_ok g data =
     (case data of
        None \<Rightarrow> (g, [])
      | Some d \<Rightarrow>
          if \<not> Valid d then (g, [])
          else
            (let sample = chronySample d;
                 buf = binaryWrite sample
             in if \<not> dial_ok
                then (g, [Dial (sockPath g) False,
                          Log ''Failed to connect to chrony socket''])
                else if \<not> write_ok
                then (g, [Dial (sockPath g) True, SetWriteDeadline 2, Write buf False,
                          Log ''Failed to write to chrony socket'', Close])
                else (g\<lparr> stats := (stats g)\<lparr> chronySamples := chronySamples (stats g) + 1 \<rparr> \<rparr>,
                      [Dial (sockPath g) True, SetWriteDeadline 2, Write buf True,
                       Log ''Chrony binary sample sent'', Close])))"

text \<open>The payloads of the datagrams a list of events wrote to the socket.\<close>

fun written :: "event list \<Rightarrow> byte list list" where
  "written [] = []"
| "written (Write buf ok # es) = buf # written es"
| "written (e # es) = written es"

section \<open>The calendar arithmetic\<close>

subsection \<open>Years as 400, 100, 4 and 1 year cycles\<close>

lemma div_repr: "0 \<le> r \<Longrightarrow> r < n \<Longrightarrow> (n * q + r) div n = (q::int)"
  by (simp add: div_pos_pos_trivial)

lemma mod_repr: "(n * q + r) mod n = r mod (n::int)"
  by simp

lemma dse_repr:
  assumes "0 \<le> b" "b < 4" "0 \<le> c" "c < 25" "0 \<le> e" "e < 4"
  shows "daysSinceEpoch (400 * a + 100 * b + 4 * c + e + 1) = 146097 * a + 36524 * b + 1461 * c + 365 * e"
proof -
  have 1: "(400 * a + 100 * b + 4 * c + e) div 400 = a"
    using div_repr [of "100 * b + 4 * c + e" 400 a] assms by (simp add: add.assoc)
  have d1: "400 * a + 100 * b + 4 * c + e - 400 * a = 100 * b + 4 * c + e" by simp
  have 2: "(100 * b + 4 * c + e) div 100 = b"
    using div_repr [of "4 * c + e" 100 b] assms by (simp add: add.assoc)
  have d2: "100 * b + 4 * c + e - 100 * b = 4 * c + e" by simp
  have 3: "(4 * c + e) div 4 = c"
    using div_repr [of e 4 c] assms by simp
  have d3: "4 * c + e - 4 * c = e" by simp
  show ?thesis unfolding daysSinceEpoch_def Let_def
    by (simp only: add_diff_cancel_right' 1 d1 2 d2 3 d3)
qed

lemma mod_zero_top: "0 < x \<Longrightarrow> x \<le> n \<Longrightarrow> (x mod n = 0) = (x = (n::int))"
  by (cases "x < n") (simp_all add: mod_pos_pos_trivial)

lemma isLeap_repr:
  assumes "0 \<le> b" "b < 4" "0 \<le> c" "c < 25" "0 \<le> e" "e < 4"
  shows "isLeap (400 * a + 100 * b + 4 * c + e + 1) \<longleftrightarrow> e = 3 \<and> (c < 24 \<or> b = 3)"
proof -
  have r1: "400 * a + 100 * b + 4 * c + e + 1 = 4 * (100 * a + 25 * b + c) + (e + 1)" by simp
  have r2: "400 * a + 100 * b + 4 * c + e + 1 = 100 * (4 * a + b) + (4 * c + e + 1)" by simp
  have r3: "400 * a + 100 * b + 4 * c + e + 1 = 400 * a + (100 * b + 4 * c + e + 1)" by simp
  have 1: "(400 * a + 100 * b + 4 * c + e + 1) mod 4 = (e + 1) mod 4"
    by (subst r1) (rule mod_repr)
  have 2: "(400 * a + 100 * b + 4 * c + e + 1) mod 100 = (4 * c + e + 1) mod 100"
    by (subst r2) (rule mod_repr)
  have 3: "(400 * a + 100 * b + 4 * c + e + 1) mod 400 = (100 * b + 4 * c + e + 1) mod 400"
    by (subst r3) (rule mod_repr)
  have 4: "(e + 1) mod 4 = 0 \<longleftrightarrow> e = 3"
    using mod_zero_top [of "e + 1" 4] assms by simp
  have h5: "4 * c + e + 1 = 100 \<longleftrightarrow> c = 24 \<and> e = 3"
    using assms by presburger
  have h6: "100 * b + 4 * c + e + 1 = 400 \<longleftrightarrow> b = 3 \<and> 4 * c + e + 1 = 100"
    using assms by linarith
  have 5: "(4 * c + e + 1) mod 100 = 0 \<longleftrightarrow> c = 24 \<and> e = 3"
    using mod_zero_top [of "4 * c + e + 1" 100] assms h5 by simp
  have 6: "(100 * b + 4 * c + e + 1) mod 400 = 0 \<longleftrightarrow> b = 3 \<and> c = 24 \<and> e = 3"
    using mod_zero_top [of "100 * b + 4 * c + e + 1" 400] assms h5 h6 by simp
  show ?thesis unfolding isLeap_def 1 2 3 4 5 6 using assms by auto
qed

lemma div_window:
  fixes x :: int
  assumes "0 < n"
  shows "n * (x div n) \<le> x" and "x < n * (x div n) + n"
proof -
  have "x = n * (x div n) + x mod n" by simp
  moreover have "0 \<le> x mod n" "x mod n < n" using assms by simp_all
  ultimately show "n * (x div n) \<le> x" and "x < n * (x div n) + n" by linarith+
qed

lemma cut4: "0 \<le> k \<Longrightarrow> k \<le> 4 \<Longrightarrow> k - k div 4 = (if k = 4 then 3 else (k::int))"
proof -
  assume "0 \<le> k" "k \<le> 4"
  then have "k = 0 \<or> k = 1 \<or> k = 2 \<or> k = 3 \<or> k = 4" by linarith
  then show ?thesis by auto
qed

lemma absYearDay_repr:
  obtains a b c e r where
    "0 \<le> b" "b < 4" "0 \<le> c" "c < 25" "0 \<le> e" "e < 4"
    "0 \<le> r" "r < (if e = 3 \<and> (c < 24 \<or> b = 3) then 366 else 365)"
    "d = 146097 * a + 36524 * b + 1461 * c + 365 * e + r"
    "absYearDay d = (400 * a + 100 * b + 4 * c + e + 1, r)"
proof -
  define a where "a = d div 146097"
  define r1 where "r1 = d - 146097 * a"
  have r1: "0 \<le> r1" "r1 < 146097"
    using div_window [of 146097 d] by (simp_all add: r1_def a_def)
  define b' where "b' = r1 div 36524"
  have b'w: "36524 * b' \<le> r1" "r1 < 36524 * b' + 36524"
    using div_window [of 36524 r1] by (simp_all add: b'_def)
  have b'r: "0 \<le> b'" "b' \<le> 4" using r1 b'w by linarith+
  define b where "b = b' - b' div 4"
  have b: "b = (if b' = 4 then 3 else b')" unfolding b_def using b'r by (rule cut4)
  define r2 where "r2 = r1 - 36524 * b"
  have r2: "0 \<le> r2" "r2 \<le> 36524" "b < 3 \<longrightarrow> r2 < 36524"
    using r1 b'w b'r b by (auto simp: r2_def split: if_splits)
  define c where "c = r2 div 1461"
  have cw: "1461 * c \<le> r2" "r2 < 1461 * c + 1461"
    using div_window [of 1461 r2] by (simp_all add: c_def)
  have cr: "0 \<le> c" "c < 25" using r2 cw by linarith+
  define r3 where "r3 = r2 - 1461 * c"
  have r3: "0 \<le> r3" "r3 < 1461" "c = 24 \<and> b < 3 \<longrightarrow> r3 < 1460"
    using r2 cw by (auto simp: r3_def)
  define e' where "e' = r3 div 365"
  have e'w: "365 * e' \<le> r3" "r3 < 365 * e' + 365"
    using div_window [of 365 r3] by (simp_all add: e'_def)
  have e'r: "0 \<le> e'" "e' \<le> 4" using r3 e'w by linarith+
  define e where "e = e' - e' div 4"
  have e: "e = (if e' = 4 then 3 else e')" unfolding e_def using e'r by (rule cut4)
  define r4 where "r4 = r3 - 365 * e"
  have r4: "0 \<le> r4" "r4 < (if e = 3 \<and> (c < 24 \<or> b = 3) then 366 else 365)"
    using r3 e'w e'r e cr r2 b b'r by (auto simp: r4_def split: if_splits)
  have br: "0 \<le> b" "b < 4" using b b'r by (auto split: if_splits)
  have er: "0 \<le> e" "e < 4" using e e'r by (auto split: if_splits)
  have d: "d = 146097 * a + 36524 * b + 1461 * c + 365 * e + r4"
    by (simp add: r4_def r3_def r2_def r1_def)
  have res: "absYearDay d = (400 * a + 100 * b + 4 * c + e + 1, r4)"
    unfolding absYearDay_def Let_def r4_def e_def e'_def r3_def c_def r2_def b_def b'_def r1_def a_def
    by simp
  show thesis using that [OF br cr er r4 d res] .
qed

lemma absYearDay_correct:
  assumes "absYearDay d = (y, yd)"
  shows "daysSinceEpoch y + yd = d" and "0 \<le> yd" and "yd < (if isLeap y then 366 else 365)"
proof -
  obtain a b c e r where
    R: "0 \<le> b" "b < 4" "0 \<le> c" "c < 25" "0 \<le> e" "e < 4" and
    r: "0 \<le> r" "r < (if e = 3 \<and> (c < 24 \<or> b = 3) then 366 else 365)" and
    d: "d = 146097 * a + 36524 * b + 1461 * c + 365 * e + r" and
    res: "absYearDay d = (400 * a + 100 * b + 4 * c + e + 1, r)"
    by (rule absYearDay_repr)
  from res assms have y: "y = 400 * a + 100 * b + 4 * c + e + 1" and yd: "yd = r" by simp_all
  show "daysSinceEpoch y + yd = d" unfolding y yd using dse_repr [OF R] d by simp
  show "0 \<le> yd" using r yd by simp
  show "yd < (if isLeap y then 366 else 365)" unfolding y yd using isLeap_repr [OF R] r by simp
qed

lemma year_repr:
  obtains a b c e where
    "0 \<le> b" "b < 4" "0 \<le> c" "c < 25" "0 \<le> e" "e < 4"
    "y = 400 * a + 100 * b + 4 * c + e + (1::int)"
proof -
  define a where "a = (y - 1) div 400"
  define m where "m = y - 1 - 400 * a"
  have m: "0 \<le> m" "m < 400" using div_window [of 400 "y - 1"] by (simp_all add: m_def a_def)
  define b where "b = m div 100"
  have bw: "100 * b \<le> m" "m < 100 * b + 100" using div_window [of 100 m] by (simp_all add: b_def)
  define m2 where "m2 = m - 100 * b"
  define c where "c = m2 div 4"
  have cw: "4 * c \<le> m2" "m2 < 4 * c + 4" using div_window [of 4 m2] by (simp_all add: c_def)
  define e where "e = m2 - 4 * c"
  have "0 \<le> b" "b < 4" "0 \<le> c" "c < 25" "0 \<le> e" "e < 4"
    using m bw cw by (simp_all add: m2_def e_def)
  moreover have "y = 400 * a + 100 * b + 4 * c + e + 1" by (simp add: e_def m2_def m_def)
  ultimately show thesis by (rule that)
qed

lemma dse_step: "daysSinceEpoch (y + 1) = daysSinceEpoch y + (if isLeap y then 366 else 365)"
proof -
  obtain a b c e where
    R: "0 \<le> b" "b < 4" "0 \<le> c" "c < 25" "0 \<le> e" "e < 4" and
    y: "y = 400 * a + 100 * b + 4 * c + e + 1"
    by (rule year_repr)
  note L = isLeap_repr [OF R, of a] and D = dse_repr [OF R, of a]
  consider (plain) "e < 3" | (four) "e = 3" "c < 24" | (cent) "e = 3" "c = 24" "b < 3"
    | (quad) "e = 3" "c = 24" "b = 3"
    using R by linarith
  then show ?thesis
  proof cases
    case plain
    have "daysSinceEpoch (400 * a + 100 * b + 4 * c + (e + 1) + 1) =
          146097 * a + 36524 * b + 1461 * c + 365 * (e + 1)"
      using R plain by (intro dse_repr) simp_all
    then show ?thesis using plain L D by (simp add: y add.assoc)
  next
    case four
    have "daysSinceEpoch (400 * a + 100 * b + 4 * (c + 1) + 0 + 1) =
          146097 * a + 36524 * b + 1461 * (c + 1) + 365 * 0"
      using R four by (intro dse_repr) simp_all
    then show ?thesis using four L D by (simp add: y add.assoc)
  next
    case cent
    have "daysSinceEpoch (400 * a + 100 * (b + 1) + 4 * 0 + 0 + 1) =
          146097 * a + 36524 * (b + 1) + 1461 * 0 + 365 * 0"
      using R cent by (intro dse_repr) simp_all
    then show ?thesis using cent L D by (simp add: y add.assoc)
  next
    case quad
    have "daysSinceEpoch (400 * (a + 1) + 100 * 0 + 4 * 0 + 0 + 1) =
          146097 * (a + 1) + 36524 * 0 + 1461 * 0 + 365 * 0"
      by (intro dse_repr) simp_all
    then show ?thesis using quad L D by (simp add: y add.assoc)
  qed
qed

lemma dse_mono: "y \<le> y' \<Longrightarrow> daysSinceEpoch y \<le> daysSinceEpoch y'"
proof (induction y' rule: int_ge_induct)
  case base
  show ?case by simp
next
  case (step i)
  then show ?case by (simp add: dse_step)
qed

lemma year_lower:
  assumes "daysSinceEpoch Y \<le> d" shows "Y \<le> fst (absYearDay d)"
proof (rule ccontr)
  obtain y yd where r: "absYearDay d = (y, yd)" by (cases "absYearDay d")
  assume "\<not> Y \<le> fst (absYearDay d)"
  then have "y + 1 \<le> Y" using r by simp
  then have "daysSinceEpoch (y + 1) \<le> daysSinceEpoch Y" by (rule dse_mono)
  moreover have "d < daysSinceEpoch (y + 1)"
    using absYearDay_correct [OF r] by (simp add: dse_step split: if_splits)
  ultimately show False using assms by linarith
qed

lemma year_upper:
  assumes "d < daysSinceEpoch Y" shows "fst (absYearDay d) < Y"
proof (rule ccontr)
  obtain y yd where r: "absYearDay d = (y, yd)" by (cases "absYearDay d")
  assume "\<not> fst (absYearDay d) < Y"
  then have "Y \<le> y" using r by simp
  then have "daysSinceEpoch Y \<le> daysSinceEpoch y" by (rule dse_mono)
  moreover have "daysSinceEpoch y \<le> d"
    using absYearDay_correct [OF r] by linarith
  ultimately show False using assms by linarith
qed

subsection \<open>Month and day of the month\<close>

lemma monthEstimate_correct:
  assumes "0 \<le> day" and "day < 365" and "monthEstimate day = (m, dd)"
  shows "1 \<le> m \<and> m \<le> 12 \<and> 1 \<le> dd \<and> daysBefore ! nat (m - 1) + (dd - 1) = day \<and>
         (3 \<le> m \<longleftrightarrow> 59 \<le> day)"
proof -
  define k where "k = day div 31"
  have kw: "31 * k \<le> day" "day < 31 * k + 31"
    using div_window [of 31 day] by (simp_all add: k_def)
  have "0 \<le> k" "k \<le> 11" using assms(1,2) kw by linarith+
  then have "k = 0 \<or> k = 1 \<or> k = 2 \<or> k = 3 \<or> k = 4 \<or> k = 5 \<or> k = 6
    \<or> k = 7 \<or> k = 8 \<or> k = 9 \<or> k = 10 \<or> k = 11" by presburger
  then consider "k = 0" | "k = 1" | "k = 2" | "k = 3" | "k = 4" | "k = 5" | "k = 6"
    | "k = 7" | "k = 8" | "k = 9" | "k = 10" | "k = 11" by blast
  moreover have md: "(m, dd) =
      (if day \<ge> daysBefore ! nat (k + 1) then (k + 2, day - daysBefore ! nat (k + 1) + 1)
       else (k + 1, day - daysBefore ! nat k + 1))"
    using assms(3) unfolding monthEstimate_def Let_def k_def by simp
  ultimately show ?thesis
    using assms(1,2) kw by cases (auto simp: daysBefore_def split: if_splits)
qed

lemma monthDay_correct:
  assumes "0 \<le> yd" and "yd < (if isLeap y then 366 else 365)" and "monthDay y yd = (m, dd)"
  shows "1 \<le> m \<and> m \<le> 12 \<and> 1 \<le> dd \<and>
         daysBefore ! nat (m - 1) + (if isLeap y \<and> 3 \<le> m then 1 else 0) + (dd - 1) = yd"
proof -
  consider (after) "isLeap y" "59 < yd" | (leapday) "isLeap y" "yd = 59"
    | (before) "isLeap y" "yd < 59" | (common) "\<not> isLeap y"
    by linarith
  then show ?thesis
  proof cases
    case after
    then have "monthEstimate (yd - 1) = (m, dd)" using assms(3) by (simp add: monthDay_def)
    from monthEstimate_correct [OF _ _ this] after assms(1,2) show ?thesis by auto
  next
    case leapday
    then show ?thesis using assms by (simp add: monthDay_def daysBefore_def)
  next
    case before
    then have "monthEstimate yd = (m, dd)" using assms(3) by (simp add: monthDay_def)
    from monthEstimate_correct [OF _ _ this] before assms(1,2) show ?thesis by auto
  next
    case common
    then have "monthEstimate yd = (m, dd)" using assms(3) by (simp add: monthDay_def)
    from monthEstimate_correct [OF _ _ this] common assms(1,2) show ?thesis by auto
  qed
qed

subsection \<open>Dates, clocks and adding days\<close>

lemma norm_id: "0 \<le> lo \<Longrightarrow> lo < base \<Longrightarrow> norm hi lo base = (hi, lo)"
  by (simp add: norm_def)

lemma Date_plain:
  assumes "1 \<le> m" "m \<le> 12" "0 \<le> h" "h < 24" "0 \<le> mi" "mi < 60" "0 \<le> s" "s < 60"
    "0 \<le> ns" "ns < 1000000000"
  shows "Date y m dd h mi s ns =
         \<lparr> unixSec = (daysSinceEpoch y + daysBefore ! nat (m - 1)
                       + (if isLeap y \<and> 3 \<le> m then 1 else 0) + (dd - 1)) * secondsPerDay
                      + (h * 3600 + mi * 60 + s) - unixToInternal,
           nsec = ns \<rparr>"
  using assms by (simp add: Date_def norm_id)

lemma Clock_correct:
  assumes "Time_Clock t = (h, mi, s)"
  shows "0 \<le> h \<and> h < 24 \<and> 0 \<le> mi \<and> mi < 60 \<and> 0 \<le> s \<and> s < 60 \<and>
         h * 3600 + mi * 60 + s = abs_of t mod secondsPerDay"
proof -
  define sec where "sec = abs_of t mod secondsPerDay"
  have sec: "0 \<le> sec" "sec < 86400" by (simp_all add: sec_def secondsPerDay_def)
  define sec1 where "sec1 = sec - (sec div 3600) * 3600"
  have hw: "3600 * (sec div 3600) \<le> sec" "sec < 3600 * (sec div 3600) + 3600"
    using div_window [of 3600 sec] by simp_all
  have mw: "60 * (sec1 div 60) \<le> sec1" "sec1 < 60 * (sec1 div 60) + 60"
    using div_window [of 60 sec1] by simp_all
  have "h = sec div 3600" "mi = sec1 div 60" "s = sec1 - (sec1 div 60) * 60"
    using assms by (auto simp: Time_Clock_def Let_def sec_def sec1_def)
  then show ?thesis using sec hw mw by (simp add: sec1_def sec_def [symmetric])
qed

lemma Date_roundtrip:
  assumes "0 \<le> h" "h < 24" "0 \<le> mi" "mi < 60" "0 \<le> s" "s < 60" "0 \<le> ns" "ns < 1000000000"
  shows "Date (Time_Year t) (Time_Month t) (Time_Day t + n) h mi s ns =
         \<lparr> unixSec = (abs_of t div secondsPerDay + n) * secondsPerDay
                      + (h * 3600 + mi * 60 + s) - unixToInternal,
           nsec = ns \<rparr>"
proof -
  obtain y yd where yy: "absYearDay (abs_of t div secondsPerDay) = (y, yd)"
    by (cases "absYearDay (abs_of t div secondsPerDay)")
  obtain m dd where md: "monthDay y yd = (m, dd)" by (cases "monthDay y yd")
  have sel: "Time_Year t = y" "Time_Month t = m" "Time_Day t = dd"
    by (simp_all add: Time_Year_def Time_Month_def Time_Day_def absDate_def yy md)
  note Y = absYearDay_correct [OF yy]
  note M = monthDay_correct [OF Y(2) Y(3) md]
  have "daysSinceEpoch y + daysBefore ! nat (m - 1) + (if isLeap y \<and> 3 \<le> m then 1 else 0)
        + (dd + n - 1) = abs_of t div secondsPerDay + n"
    using Y(1) M by linarith
  moreover have "1 \<le> m" "m \<le> 12" using M by simp_all
  ultimately show ?thesis unfolding sel using assms by (simp only: Date_plain)
qed

lemma AddDate_days:
  assumes "0 \<le> nsec t" "nsec t < 1000000000"
  shows "Time_AddDate 0 0 n t = \<lparr> unixSec = unixSec t + n * secondsPerDay, nsec = nsec t \<rparr>"
proof -
  obtain h mi s where c: "Time_Clock t = (h, mi, s)" by (cases "Time_Clock t")
  note C = Clock_correct [OF c]
  have "Time_AddDate 0 0 n t = Date (Time_Year t) (Time_Month t) (Time_Day t + n) h mi s (nsec t)"
    by (simp add: Time_AddDate_def c)
  also have "\<dots> = \<lparr> unixSec = (abs_of t div secondsPerDay + n) * secondsPerDay
                      + (h * 3600 + mi * 60 + s) - unixToInternal, nsec = nsec t \<rparr>"
    using C assms by (intro Date_roundtrip) simp_all
  also have "(abs_of t div secondsPerDay + n) * secondsPerDay + (h * 3600 + mi * 60 + s)
             - unixToInternal = unixSec t + n * secondsPerDay"
  proof -
    have "abs_of t div secondsPerDay * secondsPerDay + abs_of t mod secondsPerDay = abs_of t"
      by simp
    then show ?thesis using C by (simp add: algebra_simps abs_of_def)
  qed
  finally show ?thesis .
qed

lemma rawTimestamp_eq:
  assumes "0 \<le> h" "h < 24" "0 \<le> mi" "mi < 60" "0 \<le> s" "s < 60"
  shows "rawTimestamp y doy h mi s =
         \<lparr> unixSec = (daysSinceEpoch y + (doy - 1)) * secondsPerDay
                      + (h * 3600 + mi * 60 + s) - unixToInternal,
           nsec = 0 \<rparr>"
proof -
  define start where "start = Date y 1 1 0 0 0 0"
  have start: "start = \<lparr> unixSec = daysSinceEpoch y * secondsPerDay - unixToInternal, nsec = 0 \<rparr>"
    unfolding start_def by (subst Date_plain) (simp_all add: daysBefore_def)
  define target where "target = Time_AddDate 0 0 (doy - 1) start"
  have target: "target = \<lparr> unixSec = (daysSinceEpoch y + (doy - 1)) * secondsPerDay - unixToInternal,
                           nsec = 0 \<rparr>"
    unfolding target_def by (subst AddDate_days) (simp_all add: start algebra_simps)
  have days: "abs_of target div secondsPerDay = daysSinceEpoch y + (doy - 1)"
    by (simp add: target abs_of_def secondsPerDay_def)
  have "rawTimestamp y doy h mi s =
        Date (Time_Year target) (Time_Month target) (Time_Day target + 0) h mi s 0"
    by (simp add: rawTimestamp_def Let_def target_def start_def)
  also have "\<dots> = \<lparr> unixSec = (abs_of target div secondsPerDay + 0) * secondsPerDay
                      + (h * 3600 + mi * 60 + s) - unixToInternal, nsec = 0 \<rparr>"
    using assms by (intro Date_roundtrip) simp_all
  finally show ?thesis by (simp add: days)
qed

subsection \<open>The rollover fix on the calendar\<close>

lemma Time_Year_fst: "Time_Year t = fst (absYearDay (abs_of t div secondsPerDay))"
  by (simp add: Time_Year_def absDate_def split: prod.splits)

lemma Time_YearDay_snd: "Time_YearDay t = snd (absYearDay (abs_of t div secondsPerDay)) + 1"
  by (simp add: Time_YearDay_def absDate_def split: prod.splits)

lemma Time_YearDay_range: "1 \<le> Time_YearDay t \<and> Time_YearDay t \<le> 366"
proof -
  obtain y yd where r: "absYearDay (abs_of t div secondsPerDay) = (y, yd)"
    by (cases "absYearDay (abs_of t div secondsPerDay)")
  from absYearDay_correct(2,3) [OF r] show ?thesis
    by (simp add: Time_YearDay_snd r split: if_splits)
qed

lemma dse_2000: "daysSinceEpoch 2000 = 730119"
  by (simp add: daysSinceEpoch_def)

lemma dse_2001: "daysSinceEpoch 2001 = 730485"
  by (simp add: daysSinceEpoch_def)

lemma dse_2019: "daysSinceEpoch 2019 = 737059"
  by (simp add: daysSinceEpoch_def)

lemma dse_2020: "daysSinceEpoch 2020 = 737424"
  by (simp add: daysSinceEpoch_def)

lemma dse_2040: "daysSinceEpoch 2040 = 744729"
  by (simp add: daysSinceEpoch_def)

text \<open>The day count of an instant given as whole days plus a time of day.\<close>

lemma days_of_instant:
  assumes "0 \<le> h" "h < 24" "0 \<le> mi" "mi < 60" "0 \<le> s" "s < 60"
  shows "abs_of \<lparr> unixSec = k * secondsPerDay + (h * 3600 + mi * 60 + s) - unixToInternal,
                   nsec = ns \<rparr> div secondsPerDay = k"
proof -
  have "(86400 * k + (h * 3600 + mi * 60 + s)) div 86400 = k"
    using assms by (intro div_repr) linarith+
  then show ?thesis by (simp add: abs_of_def secondsPerDay_def mult.commute)
qed

lemma rollover_fix:
  assumes y: "2000 \<le> y" "y < 2020" and doy: "1 \<le> doy" "doy \<le> 366"
    and hms: "0 \<le> h" "h < 24" "0 \<le> mi" "mi < 60" "0 \<le> s" "s < 60"
  defines "raw \<equiv> rawTimestamp y doy h mi s"
  defines "ts \<equiv> Time_AddDate 0 0 7168 raw"
  shows "ts = \<lparr> unixSec = unixSec raw + 7168 * 86400, nsec = nsec raw \<rparr>"
    and "2019 \<le> Time_Year ts" and "Time_Year ts \<le> 2039"
    and "Time_Year ts = 2019 \<longleftrightarrow> y = 2000 \<and> doy \<le> 137"
proof -
  have raw: "raw = \<lparr> unixSec = (daysSinceEpoch y + (doy - 1)) * secondsPerDay
                      + (h * 3600 + mi * 60 + s) - unixToInternal, nsec = 0 \<rparr>"
    unfolding raw_def using hms by (rule rawTimestamp_eq)
  have ts: "ts = \<lparr> unixSec = unixSec raw + 7168 * secondsPerDay, nsec = nsec raw \<rparr>"
    unfolding ts_def by (rule AddDate_days) (simp_all add: raw)
  then show "ts = \<lparr> unixSec = unixSec raw + 7168 * 86400, nsec = nsec raw \<rparr>"
    by (simp add: secondsPerDay_def)
  have "ts = \<lparr> unixSec = (daysSinceEpoch y + (doy - 1) + 7168) * secondsPerDay
                      + (h * 3600 + mi * 60 + s) - unixToInternal, nsec = 0 \<rparr>"
    by (simp add: ts raw algebra_simps)
  then have days: "abs_of ts div secondsPerDay = daysSinceEpoch y + (doy - 1) + 7168"
    using days_of_instant [OF hms] by simp
  have lo: "daysSinceEpoch 2000 \<le> daysSinceEpoch y" and hi: "daysSinceEpoch y \<le> daysSinceEpoch 2019"
    using y by (auto intro: dse_mono)
  show "2019 \<le> Time_Year ts"
    unfolding Time_Year_fst days using lo doy by (intro year_lower) (simp add: dse_2000 dse_2019)
  show "Time_Year ts \<le> 2039"
  proof -
    have "fst (absYearDay (daysSinceEpoch y + (doy - 1) + 7168)) < 2040"
      using hi doy by (intro year_upper) (simp add: dse_2019 dse_2040)
    then show ?thesis by (simp add: Time_Year_fst days)
  qed
  show "Time_Year ts = 2019 \<longleftrightarrow> y = 2000 \<and> doy \<le> 137"
  proof (cases "y = 2000 \<and> doy \<le> 137")
    case True
    then have "fst (absYearDay (daysSinceEpoch y + (doy - 1) + 7168)) < 2020"
      by (intro year_upper) (simp add: dse_2000 dse_2020)
    with \<open>2019 \<le> Time_Year ts\<close> True show ?thesis by (simp add: Time_Year_fst days)
  next
    case False
    have "daysSinceEpoch 2020 \<le> daysSinceEpoch y + (doy - 1) + 7168"
    proof (cases "y = 2000")
      case True
      with False doy show ?thesis by (simp add: dse_2000 dse_2020)
    next
      case False
      with y have "daysSinceEpoch 2001 \<le> daysSinceEpoch y" by (intro dse_mono) simp
      with doy show ?thesis by (simp add: dse_2001 dse_2020)
    qed
    then have "2020 \<le> Time_Year ts" unfolding Time_Year_fst days by (rule year_lower)
    with False show ?thesis by simp
  qed
qed

subsection \<open>What the parser returns\<close>

lemma field_nonneg:
  "0 \<le> f_hour data" "0 \<le> f_minute data" "0 \<le> f_second data"
  by (simp_all add: f_hour_def f_minute_def f_second_def)

lemma parse_None_iff:
  "parseZ3805APacket now data = None \<longleftrightarrow>
     length data \<noteq> 16 \<or> data ! 15 \<noteq> 0x0D \<or>
     out_of_range (f_year data) (f_dayOfYear data) (f_hour data) (f_minute data) (f_second data)"
  by (simp add: parseZ3805APacket_def Let_def split: prod.splits)

lemma parse_Some_fields:
  assumes "parseZ3805APacket now data = Some s"
  shows "Hour s = f_hour data" "Minute s = f_minute data" "Second s = f_second data"
    "LeapSeconds s = f_leapSeconds data" "Status s = status_of (f_statusVal data)"
    "Valid s \<longleftrightarrow> Status s = GPSDOLocked \<or> Status s = GPSDOHoldover"
    "ParseTime s = now"
    "f_year data < 2020 \<Longrightarrow>
       Timestamp s = Time_AddDate 0 0 7168
         (rawTimestamp (f_year data) (f_dayOfYear data) (f_hour data) (f_minute data) (f_second data))"
    "f_year data < 2020 \<Longrightarrow> Year s = Time_Year (Timestamp s)"
    "f_year data < 2020 \<Longrightarrow> DayOfYear s = Time_YearDay (Timestamp s)"
    "\<not> f_year data < 2020 \<Longrightarrow>
       Timestamp s =
         rawTimestamp (f_year data) (f_dayOfYear data) (f_hour data) (f_minute data) (f_second data)"
    "\<not> f_year data < 2020 \<Longrightarrow> Year s = f_year data"
    "\<not> f_year data < 2020 \<Longrightarrow> DayOfYear s = f_dayOfYear data"
  using assms by (auto simp: parseZ3805APacket_def Let_def split: if_splits)

lemma sendChronySample_written:
  "written (snd (sendChronySample dial_ok write_ok g data)) =
     (case data of None \<Rightarrow> []
      | Some d \<Rightarrow> if Valid d \<and> dial_ok then [binaryWrite (chronySample d)] else [])"
  by (simp add: sendChronySample_def Let_def split: option.splits)

subsection \<open>Little-endian bytes\<close>

text \<open>
  Byte \<open>i\<close> of an encoded 64-bit integer is digit \<open>i\<close> of its value in base 256, the
  least significant digit first. For a negative value the digits are those of its two's
  complement, which is what flooring division yields.
\<close>

lemma byte_of_word64:
  "k + 8 \<le> 64 \<Longrightarrow>
     (ucast (drop_bit k (word_of_int s :: 64 word)) :: byte) = word_of_int (s div 2 ^ k)"
  by (rule bit_word_eqI) (simp add: bit_simps flip: drop_bit_eq_div)

lemma putUint64_digits:
  "putUint64 (word_of_int s) =
     [word_of_int s, word_of_int (s div 256), word_of_int (s div 256 ^ 2),
      word_of_int (s div 256 ^ 3), word_of_int (s div 256 ^ 4), word_of_int (s div 256 ^ 5),
      word_of_int (s div 256 ^ 6), word_of_int (s div 256 ^ 7)]"
  using byte_of_word64 [of 0 s] byte_of_word64 [of 8 s] byte_of_word64 [of 16 s]
    byte_of_word64 [of 24 s] byte_of_word64 [of 32 s] byte_of_word64 [of 40 s]
    byte_of_word64 [of 48 s] byte_of_word64 [of 56 s]
  by (simp add: putUint64_def)

section \<open>The claims\<close>

subsection \<open>Malformed buffers\<close>

text \<open>
  Claim C6. A buffer whose length is not 16, or whose byte 15 is not the carriage return
  \<open>0x0D\<close>, decodes to no result, whatever its other bytes are.
\<close>

theorem malformed_buffer_rejected:
  "length data \<noteq> 16 \<or> data ! 15 \<noteq> 0x0D \<Longrightarrow> parseZ3805APacket now data = None"
  by (auto simp: parseZ3805APacket_def)

text \<open>
  Two malformed buffers: the fifteen-byte prefix of a good telegram, and a good telegram
  whose terminator is replaced with \<open>0x0A\<close>.
\<close>

theorem malformed_buffer_rejected_witness:
  "parseZ3805APacket \<lparr>unixSec = 0, nsec = 0\<rparr> [2, 5, 0, 4, 3, 1, 2, 1, 5, 3, 0, 0, 0, 0, 0] = None \<and>
   parseZ3805APacket \<lparr>unixSec = 0, nsec = 0\<rparr>
     [2, 5, 0, 4, 3, 1, 2, 1, 5, 3, 0, 0, 0, 0, 0, 0x0A] = None"
  using malformed_buffer_rejected
          [of "[2, 5, 0, 4, 3, 1, 2, 1, 5, 3, 0, 0, 0, 0, 0]" "\<lparr>unixSec = 0, nsec = 0\<rparr>"]
        malformed_buffer_rejected
          [of "[2, 5, 0, 4, 3, 1, 2, 1, 5, 3, 0, 0, 0, 0, 0, 0x0A]" "\<lparr>unixSec = 0, nsec = 0\<rparr>"]
  by simp

subsection \<open>Status classification\<close>

text \<open>
  Claim C4. In every decoded telegram the status code 0 gives Locked and valid, 10 gives
  PowerUp and invalid, 100 gives Holdover and valid, every other code gives Unknown and
  invalid; the validity flag is true exactly for Locked and Holdover.
\<close>

theorem status_classification:
  assumes "parseZ3805APacket now data = Some s"
  shows "(f_statusVal data = 0 \<longrightarrow> Status s = GPSDOLocked \<and> Valid s) \<and>
         (f_statusVal data = 10 \<longrightarrow> Status s = GPSDOPowerUp \<and> \<not> Valid s) \<and>
         (f_statusVal data = 100 \<longrightarrow> Status s = GPSDOHoldover \<and> Valid s) \<and>
         (f_statusVal data \<noteq> 0 \<and> f_statusVal data \<noteq> 10 \<and> f_statusVal data \<noteq> 100 \<longrightarrow>
            Status s = GPSDOUnknown \<and> \<not> Valid s) \<and>
         (Valid s \<longleftrightarrow> Status s = GPSDOLocked \<or> Status s = GPSDOHoldover)"
  using parse_Some_fields(5,6) [OF assms] by (simp add: status_of_def)

text \<open>Four telegrams of the same instant with the status codes 0, 10, 100 and 55.\<close>

theorem status_classification_witness:
  "(f_statusVal [2, 5, 0, 4, 3, 1, 2, 1, 5, 3, 0, 0, 0, 0, 0, 0x0D] = 0 \<and>
    Status (the (parseZ3805APacket \<lparr>unixSec = 0, nsec = 0\<rparr>
      [2, 5, 0, 4, 3, 1, 2, 1, 5, 3, 0, 0, 0, 0, 0, 0x0D])) = GPSDOLocked \<and>
    Valid (the (parseZ3805APacket \<lparr>unixSec = 0, nsec = 0\<rparr>
      [2, 5, 0, 4, 3, 1, 2, 1, 5, 3, 0, 0, 0, 0, 0, 0x0D]))) \<and>
   (f_statusVal [2, 5, 0, 4, 3, 1, 2, 1, 5, 3, 0, 0, 0, 1, 0, 0x0D] = 10 \<and>
    Status (the (parseZ3805APacket \<lparr>unixSec = 0, nsec = 0\<rparr>
      [2, 5, 0, 4, 3, 1, 2, 1, 5, 3, 0, 0, 0, 1, 0, 0x0D])) = GPSDOPowerUp \<and>
    \<not> Valid (the (parseZ3805APacket \<lparr>unixSec = 0, nsec = 0\<rparr>
      [2, 5, 0, 4, 3, 1, 2, 1, 5, 3, 0, 0, 0, 1, 0, 0x0D]))) \<and>
   (f_statusVal [2, 5, 0, 4, 3, 1, 2, 1, 5, 3, 0, 0, 0, 10, 0, 0x0D] = 100 \<and>
    Status (the (parseZ3805APacket \<lparr>unixSec = 0, nsec = 0\<rparr>
      [2, 5, 0, 4, 3, 1, 2, 1, 5, 3, 0, 0, 0, 10, 0, 0x0D])) = GPSDOHoldover \<and>
    Valid (the (parseZ3805APacket \<lparr>unixSec = 0, nsec = 0\<rparr>
      [2, 5, 0, 4, 3, 1, 2, 1, 5, 3, 0, 0, 0, 10, 0, 0x0D]))) \<and>
   (f_statusVal [2, 5, 0, 4, 3, 1, 2, 1, 5, 3, 0, 0, 0, 5, 5, 0x0D] = 55 \<and>
    Status (the (parseZ3805APacket \<lparr>unixSec = 0, nsec = 0\<rparr>
      [2, 5, 0, 4, 3, 1, 2, 1, 5, 3, 0, 0, 0, 5, 5, 0x0D])) = GPSDOUnknown \<and>
    \<not> Valid (the (parseZ3805APacket \<lparr>unixSec = 0, nsec = 0\<rparr>
      [2, 5, 0, 4, 3, 1, 2, 1, 5, 3, 0, 0, 0, 5, 5, 0x0D])))"
proof -
  let ?now = "\<lparr>unixSec = 0, nsec = 0\<rparr>"
  have some: "\<And>data. length data = 16 \<Longrightarrow> data ! 15 = 0x0D \<Longrightarrow>
      \<not> out_of_range (f_year data) (f_dayOfYear data) (f_hour data) (f_minute data) (f_second data) \<Longrightarrow>
      parseZ3805APacket ?now data = Some (the (parseZ3805APacket ?now data))"
    using parse_None_iff [of ?now] by fastforce
  have a: "parseZ3805APacket ?now [2, 5, 0, 4, 3, 1, 2, 1, 5, 3, 0, 0, 0, 0, 0, 0x0D] =
      Some (the (parseZ3805APacket ?now [2, 5, 0, 4, 3, 1, 2, 1, 5, 3, 0, 0, 0, 0, 0, 0x0D]))"
    by (rule some) (simp_all add: out_of_range_def f_year_def f_dayOfYear_def f_hour_def
        f_minute_def f_second_def)
  have b: "parseZ3805APacket ?now [2, 5, 0, 4, 3, 1, 2, 1, 5, 3, 0, 0, 0, 1, 0, 0x0D] =
      Some (the (parseZ3805APacket ?now [2, 5, 0, 4, 3, 1, 2, 1, 5, 3, 0, 0, 0, 1, 0, 0x0D]))"
    by (rule some) (simp_all add: out_of_range_def f_year_def f_dayOfYear_def f_hour_def
        f_minute_def f_second_def)
  have c: "parseZ3805APacket ?now [2, 5, 0, 4, 3, 1, 2, 1, 5, 3, 0, 0, 0, 10, 0, 0x0D] =
      Some (the (parseZ3805APacket ?now [2, 5, 0, 4, 3, 1, 2, 1, 5, 3, 0, 0, 0, 10, 0, 0x0D]))"
    by (rule some) (simp_all add: out_of_range_def f_year_def f_dayOfYear_def f_hour_def
        f_minute_def f_second_def)
  have d: "parseZ3805APacket ?now [2, 5, 0, 4, 3, 1, 2, 1, 5, 3, 0, 0, 0, 5, 5, 0x0D] =
      Some (the (parseZ3805APacket ?now [2, 5, 0, 4, 3, 1, 2, 1, 5, 3, 0, 0, 0, 5, 5, 0x0D]))"
    by (rule some) (simp_all add: out_of_range_def f_year_def f_dayOfYear_def f_hour_def
        f_minute_def f_second_def)
  have v: "f_statusVal [2, 5, 0, 4, 3, 1, 2, 1, 5, 3, 0, 0, 0, 0, 0, 0x0D] = 0"
    "f_statusVal [2, 5, 0, 4, 3, 1, 2, 1, 5, 3, 0, 0, 0, 1, 0, 0x0D] = 10"
    "f_statusVal [2, 5, 0, 4, 3, 1, 2, 1, 5, 3, 0, 0, 0, 10, 0, 0x0D] = 100"
    "f_statusVal [2, 5, 0, 4, 3, 1, 2, 1, 5, 3, 0, 0, 0, 5, 5, 0x0D] = 55"
    by (simp_all add: f_statusVal_def)
  show ?thesis
    using status_classification [OF a] status_classification [OF b]
      status_classification [OF c] status_classification [OF d]
    by (simp add: v)
qed

subsection \<open>Invalid samples are not sent\<close>

text \<open>
  Claim C5. When the sample is nil or its validity flag is false, \<^verbatim>\<open>sendChronySample\<close>
  returns at once: it encodes nothing, opens no socket, writes nothing, and leaves the
  counters as they were.
\<close>

theorem invalid_sample_not_sent:
  "data = None \<or> (\<exists>d. data = Some d \<and> \<not> Valid d) \<Longrightarrow>
     sendChronySample dial_ok write_ok g data = (g, [])"
  by (auto simp: sendChronySample_def)

text \<open>The nil sample, and the sample of a telegram with status code 10 (PowerUp).\<close>

theorem invalid_sample_not_sent_witness:
  "sendChronySample True True
     \<lparr>serialPort = ''/dev/ttyAMA0'', sockPath = ''/var/run/chrony/gpsdo.sock'',
      stats = \<lparr>totalPackets = 1, validPackets = 1, chronySamples = 0,
               lastUpdate = \<lparr>unixSec = 0, nsec = 0\<rparr>\<rparr>\<rparr>
     None =
   (\<lparr>serialPort = ''/dev/ttyAMA0'', sockPath = ''/var/run/chrony/gpsdo.sock'',
     stats = \<lparr>totalPackets = 1, validPackets = 1, chronySamples = 0,
              lastUpdate = \<lparr>unixSec = 0, nsec = 0\<rparr>\<rparr>\<rparr>, []) \<and>
   sendChronySample True True
     \<lparr>serialPort = ''/dev/ttyAMA0'', sockPath = ''/var/run/chrony/gpsdo.sock'',
      stats = \<lparr>totalPackets = 1, validPackets = 1, chronySamples = 0,
               lastUpdate = \<lparr>unixSec = 0, nsec = 0\<rparr>\<rparr>\<rparr>
     (Some \<lparr>Year = 2025, DayOfYear = 43, Hour = 12, Minute = 15, Second = 30,
            LeapSeconds = 0, Status = GPSDOPowerUp, Valid = False,
            Timestamp = \<lparr>unixSec = 1739362530, nsec = 0\<rparr>,
            ParseTime = \<lparr>unixSec = 0, nsec = 0\<rparr>\<rparr>) =
   (\<lparr>serialPort = ''/dev/ttyAMA0'', sockPath = ''/var/run/chrony/gpsdo.sock'',
     stats = \<lparr>totalPackets = 1, validPackets = 1, chronySamples = 0,
              lastUpdate = \<lparr>unixSec = 0, nsec = 0\<rparr>\<rparr>\<rparr>, [])"
proof -
  let ?g = "\<lparr>serialPort = ''/dev/ttyAMA0'', sockPath = ''/var/run/chrony/gpsdo.sock'',
             stats = \<lparr>totalPackets = 1, validPackets = 1, chronySamples = 0,
                      lastUpdate = \<lparr>unixSec = 0, nsec = 0\<rparr>\<rparr>\<rparr>"
  let ?d = "\<lparr>Year = 2025, DayOfYear = 43, Hour = 12, Minute = 15, Second = 30,
             LeapSeconds = 0, Status = GPSDOPowerUp, Valid = False,
             Timestamp = \<lparr>unixSec = 1739362530, nsec = 0\<rparr>,
             ParseTime = \<lparr>unixSec = 0, nsec = 0\<rparr>\<rparr>"
  have "sendChronySample True True ?g None = (?g, [])"
    by (rule invalid_sample_not_sent) simp
  moreover have "sendChronySample True True ?g (Some ?d) = (?g, [])"
    by (rule invalid_sample_not_sent) simp
  ultimately show ?thesis by (rule conjI)
qed

subsection \<open>Bytes are not checked to be digits\<close>

text \<open>
  Claim C10. No byte is tested to be a decimal digit; only the weighted sums are range
  checked. The telegram whose minute bytes are \<open>0x00, 0x3B\<close> decodes, with minute
  \<open>0 * 10 + 59 = 59\<close>.
\<close>

theorem non_digit_byte_accepted:
  "9 < uint ([2, 5, 0, 4, 3, 1, 2, 0, 0x3B, 3, 0, 0, 0, 0, 0, 0x0D :: byte] ! 8) \<and>
   parseZ3805APacket now [2, 5, 0, 4, 3, 1, 2, 0, 0x3B, 3, 0, 0, 0, 0, 0, 0x0D] =
     Some \<lparr>Year = 2025, DayOfYear = 43, Hour = 12, Minute = 59, Second = 30,
           LeapSeconds = 0, Status = GPSDOLocked, Valid = True,
           Timestamp = \<lparr>unixSec = 1739365170, nsec = 0\<rparr>,
           ParseTime = now\<rparr>"
  by (simp add: parseZ3805APacket_def f_year_def f_dayOfYear_def f_hour_def f_minute_def
      f_second_def f_leapSeconds_def f_statusVal_def out_of_range_def status_of_def
      rawTimestamp_eq daysSinceEpoch_def secondsPerDay_def unixToInternal_def)

subsection \<open>The sample record\<close>

text \<open>
  Claim C8. In every encoded record the offset is 0.0 (eight zero bytes), the pulse, leap
  and padding fields are 0 and the magic field is \<open>0x534F434B\<close>, and every multi-byte
  field is written least significant byte first: bytes 0 to 7 are the base-256 digits of
  the Unix seconds in ascending order, bytes 8 to 15 those of the microseconds, and the
  record ends with the magic bytes \<open>4B 43 4F 53\<close>.
\<close>

theorem record_constant_fields:
  "Offset (chronySample d) = 0 \<and> Pulse (chronySample d) = 0 \<and> Leap (chronySample d) = 0 \<and>
   Pad (chronySample d) = 0 \<and> Magic (chronySample d) = 0x534F434B \<and>
   binaryWrite (chronySample d) =
     [word_of_int (unixSec (Timestamp d)),
      word_of_int (unixSec (Timestamp d) div 256),
      word_of_int (unixSec (Timestamp d) div 256 ^ 2),
      word_of_int (unixSec (Timestamp d) div 256 ^ 3),
      word_of_int (unixSec (Timestamp d) div 256 ^ 4),
      word_of_int (unixSec (Timestamp d) div 256 ^ 5),
      word_of_int (unixSec (Timestamp d) div 256 ^ 6),
      word_of_int (unixSec (Timestamp d) div 256 ^ 7)] @
     [word_of_int (nsec (Timestamp d) div 1000),
      word_of_int (nsec (Timestamp d) div 1000 div 256),
      word_of_int (nsec (Timestamp d) div 1000 div 256 ^ 2),
      word_of_int (nsec (Timestamp d) div 1000 div 256 ^ 3),
      word_of_int (nsec (Timestamp d) div 1000 div 256 ^ 4),
      word_of_int (nsec (Timestamp d) div 1000 div 256 ^ 5),
      word_of_int (nsec (Timestamp d) div 1000 div 256 ^ 6),
      word_of_int (nsec (Timestamp d) div 1000 div 256 ^ 7)] @
     [0, 0, 0, 0, 0, 0, 0, 0] @ [0, 0, 0, 0] @ [0, 0, 0, 0] @ [0, 0, 0, 0] @
     [0x4B, 0x43, 0x4F, 0x53]"
proof -
  have tv: "putUint64 (Sec (Tv (chronySample d))) = putUint64 (word_of_int (unixSec (Timestamp d)))"
    "putUint64 (Usec (Tv (chronySample d))) =
       putUint64 (word_of_int (nsec (Timestamp d) div 1000))"
    by (simp_all add: chronySample_def)
  have const: "putUint64 (Offset (chronySample d)) = [0, 0, 0, 0, 0, 0, 0, 0]"
    "putUint32 (Pulse (chronySample d)) = [0, 0, 0, 0]"
    "putUint32 (Leap (chronySample d)) = [0, 0, 0, 0]"
    "putUint32 (Pad (chronySample d)) = [0, 0, 0, 0]"
    "putUint32 (Magic (chronySample d)) = [0x4B, 0x43, 0x4F, 0x53]"
    by (simp_all add: chronySample_def putUint32_def putUint64_def)
  have fields: "Offset (chronySample d) = 0" "Pulse (chronySample d) = 0"
    "Leap (chronySample d) = 0" "Pad (chronySample d) = 0"
    "Magic (chronySample d) = 0x534F434B"
    by (simp_all add: chronySample_def)
  have "binaryWrite (chronySample d) =
      putUint64 (word_of_int (unixSec (Timestamp d))) @
      putUint64 (word_of_int (nsec (Timestamp d) div 1000)) @
      [0, 0, 0, 0, 0, 0, 0, 0] @ [0, 0, 0, 0] @ [0, 0, 0, 0] @ [0, 0, 0, 0] @
      [0x4B, 0x43, 0x4F, 0x53]"
    unfolding binaryWrite_def tv const ..
  then show ?thesis unfolding putUint64_digits using fields by simp
qed

text \<open>
  Claim C3, as amended. Every datagram \<^verbatim>\<open>sendChronySample\<close> writes is 40 bytes long:
  two 8-byte integers, the 8-byte float and four 4-byte integers.
\<close>

theorem record_length:
  "buf \<in> set (written (snd (sendChronySample dial_ok write_ok g data))) \<Longrightarrow> length buf = 40"
  by (auto simp: sendChronySample_written binaryWrite_def putUint32_def putUint64_def
      split: option.splits if_splits)

text \<open>The sample of the telegram for day 43 of 2025 is written, as one datagram.\<close>

theorem record_length_witness:
  "written (snd (sendChronySample True True
     \<lparr>serialPort = ''/dev/ttyAMA0'', sockPath = ''/var/run/chrony/gpsdo.sock'',
      stats = \<lparr>totalPackets = 1, validPackets = 1, chronySamples = 0,
               lastUpdate = \<lparr>unixSec = 0, nsec = 0\<rparr>\<rparr>\<rparr>
     (Some \<lparr>Year = 2025, DayOfYear = 43, Hour = 12, Minute = 15, Second = 30,
            LeapSeconds = 0, Status = GPSDOLocked, Valid = True,
            Timestamp = \<lparr>unixSec = 1739362530, nsec = 0\<rparr>,
            ParseTime = \<lparr>unixSec = 0, nsec = 0\<rparr>\<rparr>))) =
   [[226, 144, 172, 103, 0, 0, 0, 0, 0, 0, 0, 0, 0, 0, 0, 0, 0, 0, 0, 0, 0, 0,
     0, 0, 0, 0, 0, 0, 0, 0, 0, 0, 0, 0, 0, 0, 75, 67, 79, 83]] \<and>
   length [226, 144, 172, 103, 0, 0, 0, 0, 0, 0, 0, 0, 0, 0, 0, 0, 0, 0, 0, 0, 0, 0,
     0, 0, 0, 0, 0, 0, 0, 0, 0, 0, 0, 0, 0, 0, 75, 67, 79, 83 :: byte] = 40"
proof -
  let ?run = "written (snd (sendChronySample True True
     \<lparr>serialPort = ''/dev/ttyAMA0'', sockPath = ''/var/run/chrony/gpsdo.sock'',
      stats = \<lparr>totalPackets = 1, validPackets = 1, chronySamples = 0,
               lastUpdate = \<lparr>unixSec = 0, nsec = 0\<rparr>\<rparr>\<rparr>
     (Some \<lparr>Year = 2025, DayOfYear = 43, Hour = 12, Minute = 15, Second = 30,
            LeapSeconds = 0, Status = GPSDOLocked, Valid = True,
            Timestamp = \<lparr>unixSec = 1739362530, nsec = 0\<rparr>,
            ParseTime = \<lparr>unixSec = 0, nsec = 0\<rparr>\<rparr>)))"
  let ?buf = "[226, 144, 172, 103, 0, 0, 0, 0, 0, 0, 0, 0, 0, 0, 0, 0, 0, 0, 0, 0, 0, 0,
     0, 0, 0, 0, 0, 0, 0, 0, 0, 0, 0, 0, 0, 0, 75, 67, 79, 83 :: byte]"
  have run: "?run = [?buf]" by code_simp
  then have "?buf \<in> set ?run" by simp
  then have "length ?buf = 40" by (rule record_length)
  with run show ?thesis by (rule conjI)
qed

text \<open>
  Claim C3 as stated fails: the one record written for that valid sample is not 32
  bytes long.
\<close>

theorem record_length_counterexample:
  "written (snd (sendChronySample True True
     \<lparr>serialPort = ''/dev/ttyAMA0'', sockPath = ''/var/run/chrony/gpsdo.sock'',
      stats = \<lparr>totalPackets = 1, validPackets = 1, chronySamples = 0,
               lastUpdate = \<lparr>unixSec = 0, nsec = 0\<rparr>\<rparr>\<rparr>
     (Some \<lparr>Year = 2025, DayOfYear = 43, Hour = 12, Minute = 15, Second = 30,
            LeapSeconds = 0, Status = GPSDOLocked, Valid = True,
            Timestamp = \<lparr>unixSec = 1739362530, nsec = 0\<rparr>,
            ParseTime = \<lparr>unixSec = 0, nsec = 0\<rparr>\<rparr>))) =
   [binaryWrite (chronySample
     \<lparr>Year = 2025, DayOfYear = 43, Hour = 12, Minute = 15, Second = 30,
      LeapSeconds = 0, Status = GPSDOLocked, Valid = True,
      Timestamp = \<lparr>unixSec = 1739362530, nsec = 0\<rparr>,
      ParseTime = \<lparr>unixSec = 0, nsec = 0\<rparr>\<rparr>)] \<and>
   Valid \<lparr>Year = 2025, DayOfYear = 43, Hour = 12, Minute = 15, Second = 30,
          LeapSeconds = 0, Status = GPSDOLocked, Valid = True,
          Timestamp = \<lparr>unixSec = 1739362530, nsec = 0\<rparr>,
          ParseTime = \<lparr>unixSec = 0, nsec = 0\<rparr>\<rparr> \<and>
   length (binaryWrite (chronySample
     \<lparr>Year = 2025, DayOfYear = 43, Hour = 12, Minute = 15, Second = 30,
      LeapSeconds = 0, Status = GPSDOLocked, Valid = True,
      Timestamp = \<lparr>unixSec = 1739362530, nsec = 0\<rparr>,
      ParseTime = \<lparr>unixSec = 0, nsec = 0\<rparr>\<rparr>)) \<noteq> 32"
  by (simp add: sendChronySample_written binaryWrite_def putUint32_def putUint64_def)

subsection \<open>The scenario of day 43 of 2025\<close>

text \<open>
  Claim C1, as amended. The buffer of the scenario starts with the bytes \<open>0x25, 0x05\<close>,
  which the parser reads as the year \<open>2000 + 37 * 10 + 5 = 2375\<close>: decoding returns no
  result. The telegram that carries the same fields one decimal digit per byte,
  \<open>2 5 0 4 3 1 2 1 5 3 0 0 0 0 0\<close> and the terminator, decodes to year 2025, day 43,
  12:15:30, leap count 0, Locked, valid, with the timestamp computed from these fields
  and no rollover fix.
\<close>

theorem scenario_2025:
  "f_year [0x25, 0x05, 0x04, 0x03, 0x00, 0x12, 0x15, 0x30, 0x00, 0x00, 0x00, 0x00, 0x00, 0x00,
      0x00, 0x0D] = 2375 \<and>
   parseZ3805APacket now
     [0x25, 0x05, 0x04, 0x03, 0x00, 0x12, 0x15, 0x30, 0x00, 0x00, 0x00, 0x00, 0x00, 0x00,
      0x00, 0x0D] = None \<and>
   parseZ3805APacket now [2, 5, 0, 4, 3, 1, 2, 1, 5, 3, 0, 0, 0, 0, 0, 0x0D] =
     Some \<lparr>Year = 2025, DayOfYear = 43, Hour = 12, Minute = 15, Second = 30,
           LeapSeconds = 0, Status = GPSDOLocked, Valid = True,
           Timestamp = rawTimestamp 2025 43 12 15 30,
           ParseTime = now\<rparr> \<and>
   rawTimestamp 2025 43 12 15 30 = \<lparr>unixSec = 1739362530, nsec = 0\<rparr>"
  by (simp add: parseZ3805APacket_def f_year_def f_dayOfYear_def f_hour_def f_minute_def
      f_second_def f_leapSeconds_def f_statusVal_def out_of_range_def status_of_def
      rawTimestamp_eq daysSinceEpoch_def secondsPerDay_def unixToInternal_def)

text \<open>Claim C1 as stated fails: the buffer of the scenario does not decode.\<close>

theorem scenario_2025_counterexample:
  "parseZ3805APacket \<lparr>unixSec = 0, nsec = 0\<rparr>
     [0x25, 0x05, 0x04, 0x03, 0x00, 0x12, 0x15, 0x30, 0x00, 0x00, 0x00, 0x00, 0x00, 0x00,
      0x00, 0x0D] = None"
  by code_simp

subsection \<open>The rollover fix\<close>

text \<open>
  Claim C2, as amended. When a telegram decodes with a year below 2020, the timestamp of
  the sample is the timestamp computed from the fields plus exactly 7168 days, and year
  and day of the year are read back from it. The year read back is at least 2019: it
  is 2019 for the telegrams of year 2000 up to day 137, and 2020 or later for all
  others.
\<close>

theorem rollover_correction:
  assumes "parseZ3805APacket now data = Some s" and "f_year data < 2020"
  shows "Timestamp s =
           \<lparr> unixSec = unixSec (rawTimestamp (f_year data) (f_dayOfYear data) (f_hour data)
                                   (f_minute data) (f_second data)) + 7168 * 86400,
             nsec = nsec (rawTimestamp (f_year data) (f_dayOfYear data) (f_hour data)
                            (f_minute data) (f_second data)) \<rparr> \<and>
         Year s = Time_Year (Timestamp s) \<and>
         DayOfYear s = Time_YearDay (Timestamp s) \<and>
         2019 \<le> Year s \<and>
         (Year s = 2019 \<longleftrightarrow> f_year data = 2000 \<and> f_dayOfYear data \<le> 137) \<and>
         (2020 \<le> Year s \<longleftrightarrow> \<not> (f_year data = 2000 \<and> f_dayOfYear data \<le> 137))"
proof -
  from assms(1) have "parseZ3805APacket now data \<noteq> None" by simp
  then have r: "2000 \<le> f_year data" "1 \<le> f_dayOfYear data" "f_dayOfYear data \<le> 366"
    "f_hour data < 24" "f_minute data < 60" "f_second data < 60"
    by (simp_all add: parse_None_iff out_of_range_def)
  note F = parse_Some_fields(8-10) [OF assms]
  note R = rollover_fix [OF r(1) assms(2) r(2,3) field_nonneg(1) r(4) field_nonneg(2) r(5)
      field_nonneg(3) r(6)]
  show ?thesis using R unfolding F(1) [symmetric] F(2) by (auto simp: F(3))
qed

theorem rollover_correction_witness:
  "parseZ3805APacket \<lparr>unixSec = 0, nsec = 0\<rparr> [1, 9, 0, 4, 3, 1, 2, 1, 5, 3, 0, 0, 0, 0, 0, 0x0D] =
     Some \<lparr>Year = 2038, DayOfYear = 271, Hour = 12, Minute = 15, Second = 30,
           LeapSeconds = 0, Status = GPSDOLocked, Valid = True,
           Timestamp = \<lparr>unixSec = 2169288930, nsec = 0\<rparr>,
           ParseTime = \<lparr>unixSec = 0, nsec = 0\<rparr>\<rparr> \<and>
   f_year [1, 9, 0, 4, 3, 1, 2, 1, 5, 3, 0, 0, 0, 0, 0, 0x0D] = 2019 \<and>
   unixSec (rawTimestamp 2019 43 12 15 30) + 7168 * 86400 = 2169288930 \<and>
   Time_Year \<lparr>unixSec = 2169288930, nsec = 0\<rparr> = 2038 \<and>
   Time_YearDay \<lparr>unixSec = 2169288930, nsec = 0\<rparr> = 271"
proof -
  let ?data = "[1, 9, 0, 4, 3, 1, 2, 1, 5, 3, 0, 0, 0, 0, 0, 0x0D] :: byte list"
  let ?s = "\<lparr>Year = 2038, DayOfYear = 271, Hour = 12, Minute = 15, Second = 30,
           LeapSeconds = 0, Status = GPSDOLocked, Valid = True,
           Timestamp = \<lparr>unixSec = 2169288930, nsec = 0\<rparr>,
           ParseTime = \<lparr>unixSec = 0, nsec = 0\<rparr>\<rparr>"
  have p: "parseZ3805APacket \<lparr>unixSec = 0, nsec = 0\<rparr> ?data = Some ?s" by code_simp
  have f: "f_year ?data = 2019" "f_dayOfYear ?data = 43" "f_hour ?data = 12"
    "f_minute ?data = 15" "f_second ?data = 30"
    by (simp_all add: f_year_def f_dayOfYear_def f_hour_def f_minute_def f_second_def)
  have y: "f_year ?data < 2020" by (simp add: f)
  show ?thesis using rollover_correction [OF p y] p by (simp add: f)
qed

text \<open>
  Claim C2 as stated fails: the telegram of day 1 of 2000, at midnight, decodes; the fix
  adds 7168 days to 946684800 (1 January 2000), and the year read back from the
  corrected timestamp is 2019, which is below 2020.
\<close>

theorem rollover_correction_counterexample:
  "f_year [0, 0, 0, 0, 1, 0, 0, 0, 0, 0, 0, 0, 0, 0, 0, 0x0D] < 2020 \<and>
   parseZ3805APacket \<lparr>unixSec = 0, nsec = 0\<rparr> [0, 0, 0, 0, 1, 0, 0, 0, 0, 0, 0, 0, 0, 0, 0, 0x0D] =
     Some \<lparr>Year = 2019, DayOfYear = 229, Hour = 0, Minute = 0, Second = 0,
           LeapSeconds = 0, Status = GPSDOLocked, Valid = True,
           Timestamp = \<lparr>unixSec = 946684800 + 7168 * 86400, nsec = 0\<rparr>,
           ParseTime = \<lparr>unixSec = 0, nsec = 0\<rparr>\<rparr> \<and>
   rawTimestamp 2000 1 0 0 0 = \<lparr>unixSec = 946684800, nsec = 0\<rparr> \<and>
   Time_Year \<lparr>unixSec = 946684800 + 7168 * 86400, nsec = 0\<rparr> = 2019 \<and>
   \<not> 2020 \<le> Time_Year \<lparr>unixSec = 946684800 + 7168 * 86400, nsec = 0\<rparr>"
  by code_simp

subsection \<open>Range invariants\<close>

text \<open>
  Claim C7. A 16-byte buffer with the terminator \<open>0x0D\<close> whose year is outside 2000 to
  2099, whose day of the year is outside 1 to 366, whose hour is outside 0 to 23 or
  whose minute or second is outside 0 to 59 decodes to no result; and every sample the
  parser returns, also after the rollover fix, has its fields in these ranges.
\<close>

theorem range_invariants:
  "(length data = 16 \<and> data ! 15 = 0x0D \<and>
      (f_year data < 2000 \<or> 2099 < f_year data \<or>
       f_dayOfYear data < 1 \<or> 366 < f_dayOfYear data \<or>
       f_hour data < 0 \<or> 23 < f_hour data \<or>
       f_minute data < 0 \<or> 59 < f_minute data \<or>
       f_second data < 0 \<or> 59 < f_second data)
      \<longrightarrow> parseZ3805APacket now data = None) \<and>
   (\<forall>s. parseZ3805APacket now data = Some s \<longrightarrow>
      2000 \<le> Year s \<and> Year s \<le> 2099 \<and> 1 \<le> DayOfYear s \<and> DayOfYear s \<le> 366 \<and>
      0 \<le> Hour s \<and> Hour s \<le> 23 \<and> 0 \<le> Minute s \<and> Minute s \<le> 59 \<and>
      0 \<le> Second s \<and> Second s \<le> 59)"
proof (intro conjI allI impI)
  assume "length data = 16 \<and> data ! 15 = 0x0D \<and>
      (f_year data < 2000 \<or> 2099 < f_year data \<or>
       f_dayOfYear data < 1 \<or> 366 < f_dayOfYear data \<or>
       f_hour data < 0 \<or> 23 < f_hour data \<or>
       f_minute data < 0 \<or> 59 < f_minute data \<or>
       f_second data < 0 \<or> 59 < f_second data)"
  then have "out_of_range (f_year data) (f_dayOfYear data) (f_hour data) (f_minute data)
      (f_second data)"
    using field_nonneg [of data] by (auto simp: out_of_range_def)
  then show "parseZ3805APacket now data = None" by (simp add: parse_None_iff)
next
  fix s assume s: "parseZ3805APacket now data = Some s"
  then have "parseZ3805APacket now data \<noteq> None" by simp
  then have r: "2000 \<le> f_year data" "f_year data \<le> 2099" "1 \<le> f_dayOfYear data"
    "f_dayOfYear data \<le> 366" "f_hour data < 24" "f_minute data < 60" "f_second data < 60"
    by (simp_all add: parse_None_iff out_of_range_def)
  note F = parse_Some_fields [OF s]
  have hms: "0 \<le> Hour s" "Hour s \<le> 23" "0 \<le> Minute s" "Minute s \<le> 59"
    "0 \<le> Second s" "Second s \<le> 59"
    using r field_nonneg [of data] by (simp_all add: F(1-3))
  have cal: "2000 \<le> Year s \<and> Year s \<le> 2099 \<and> 1 \<le> DayOfYear s \<and> DayOfYear s \<le> 366"
  proof (cases "f_year data < 2020")
    case True
    note R = rollover_fix [OF r(1) True r(3,4) field_nonneg(1) r(5) field_nonneg(2) r(6)
        field_nonneg(3) r(7)]
    have "2019 \<le> Year s" "Year s \<le> 2039"
      using R(2,3) by (simp_all add: F(9) [OF True] F(8) [OF True])
    moreover have "1 \<le> DayOfYear s \<and> DayOfYear s \<le> 366"
      unfolding F(10) [OF True] by (rule Time_YearDay_range)
    ultimately show ?thesis by simp
  next
    case False
    then show ?thesis using r by (simp add: F(12,13))
  qed
  show "2000 \<le> Year s" "Year s \<le> 2099" "1 \<le> DayOfYear s" "DayOfYear s \<le> 366"
    using cal by simp_all
  show "0 \<le> Hour s" "Hour s \<le> 23" "0 \<le> Minute s" "Minute s \<le> 59"
    "0 \<le> Second s" "Second s \<le> 59"
    using hms by simp_all
qed

text \<open>
  A telegram with hour 24 is rejected; the telegram of the last second of day 366 of
  2019 decodes, and after the rollover fix its sample is day 229 of 2039.
\<close>

theorem range_invariants_witness:
  "23 < f_hour [2, 5, 0, 4, 3, 2, 4, 1, 5, 3, 0, 0, 0, 0, 0, 0x0D] \<and>
   parseZ3805APacket \<lparr>unixSec = 0, nsec = 0\<rparr>
     [2, 5, 0, 4, 3, 2, 4, 1, 5, 3, 0, 0, 0, 0, 0, 0x0D] = None \<and>
   parseZ3805APacket \<lparr>unixSec = 0, nsec = 0\<rparr>
     [1, 9, 3, 6, 6, 2, 3, 5, 9, 5, 9, 0, 0, 0, 0, 0x0D] =
     Some \<lparr>Year = 2039, DayOfYear = 229, Hour = 23, Minute = 59, Second = 59,
           LeapSeconds = 0, Status = GPSDOLocked, Valid = True,
           Timestamp = \<lparr>unixSec = 2197238399, nsec = 0\<rparr>,
           ParseTime = \<lparr>unixSec = 0, nsec = 0\<rparr>\<rparr> \<and>
   (2000::int) \<le> 2039 \<and> (2039::int) \<le> 2099 \<and> (1::int) \<le> 229 \<and> (229::int) \<le> 366"
proof -
  let ?bad = "[2, 5, 0, 4, 3, 2, 4, 1, 5, 3, 0, 0, 0, 0, 0, 0x0D] :: byte list"
  let ?good = "[1, 9, 3, 6, 6, 2, 3, 5, 9, 5, 9, 0, 0, 0, 0, 0x0D] :: byte list"
  let ?s = "\<lparr>Year = 2039, DayOfYear = 229, Hour = 23, Minute = 59, Second = 59,
           LeapSeconds = 0, Status = GPSDOLocked, Valid = True,
           Timestamp = \<lparr>unixSec = 2197238399, nsec = 0\<rparr>,
           ParseTime = \<lparr>unixSec = 0, nsec = 0\<rparr>\<rparr>"
  have h: "23 < f_hour ?bad" by (simp add: f_hour_def)
  have p: "parseZ3805APacket \<lparr>unixSec = 0, nsec = 0\<rparr> ?good = Some ?s" by code_simp
  have "parseZ3805APacket \<lparr>unixSec = 0, nsec = 0\<rparr> ?bad = None"
    using range_invariants [of ?bad "\<lparr>unixSec = 0, nsec = 0\<rparr>"] h by simp
  moreover have "2000 \<le> Year ?s \<and> Year ?s \<le> 2099 \<and> 1 \<le> DayOfYear ?s \<and> DayOfYear ?s \<le> 366"
    using range_invariants [of ?good "\<lparr>unixSec = 0, nsec = 0\<rparr>"] p by blast
  ultimately show ?thesis using h p by simp
qed

subsection \<open>Determinism\<close>

text \<open>
  Claim C9. Two runs of the parser on the same buffer, at whatever times, both fail or
  both succeed, and then their samples agree on every field except \<open>ParseTime\<close>; and on
  a 16-byte buffer with the terminator and all fields in range the parser returns a
  sample.
\<close>

theorem decode_deterministic_total:
  "(parseZ3805APacket now1 data = None \<longleftrightarrow> parseZ3805APacket now2 data = None) \<and>
   (\<forall>s1 s2. parseZ3805APacket now1 data = Some s1 \<and> parseZ3805APacket now2 data = Some s2 \<longrightarrow>
      Year s1 = Year s2 \<and> DayOfYear s1 = DayOfYear s2 \<and> Hour s1 = Hour s2 \<and>
      Minute s1 = Minute s2 \<and> Second s1 = Second s2 \<and> LeapSeconds s1 = LeapSeconds s2 \<and>
      Status s1 = Status s2 \<and> Valid s1 = Valid s2 \<and> Timestamp s1 = Timestamp s2 \<and>
      s1\<lparr>ParseTime := ParseTime s2\<rparr> = s2) \<and>
   (length data = 16 \<and> data ! 15 = 0x0D \<and>
    2000 \<le> f_year data \<and> f_year data \<le> 2099 \<and>
    1 \<le> f_dayOfYear data \<and> f_dayOfYear data \<le> 366 \<and>
    f_hour data \<le> 23 \<and> f_minute data \<le> 59 \<and> f_second data \<le> 59
    \<longrightarrow> (\<exists>s. parseZ3805APacket now1 data = Some s))"
proof (intro conjI allI impI)
  show "parseZ3805APacket now1 data = None \<longleftrightarrow> parseZ3805APacket now2 data = None"
    by (simp add: parse_None_iff)
next
  fix s1 s2
  assume "parseZ3805APacket now1 data = Some s1 \<and> parseZ3805APacket now2 data = Some s2"
  then have eq: "s1\<lparr>ParseTime := ParseTime s2\<rparr> = s2"
    by (auto simp: parseZ3805APacket_def Let_def split: if_splits)
  then show "s1\<lparr>ParseTime := ParseTime s2\<rparr> = s2" .
  from eq have "Year (s1\<lparr>ParseTime := ParseTime s2\<rparr>) = Year s2"
    "DayOfYear (s1\<lparr>ParseTime := ParseTime s2\<rparr>) = DayOfYear s2"
    "Hour (s1\<lparr>ParseTime := ParseTime s2\<rparr>) = Hour s2"
    "Minute (s1\<lparr>ParseTime := ParseTime s2\<rparr>) = Minute s2"
    "Second (s1\<lparr>ParseTime := ParseTime s2\<rparr>) = Second s2"
    "LeapSeconds (s1\<lparr>ParseTime := ParseTime s2\<rparr>) = LeapSeconds s2"
    "Status (s1\<lparr>ParseTime := ParseTime s2\<rparr>) = Status s2"
    "Valid (s1\<lparr>ParseTime := ParseTime s2\<rparr>) = Valid s2"
    "Timestamp (s1\<lparr>ParseTime := ParseTime s2\<rparr>) = Timestamp s2"
    by (rule arg_cong)+
  then show "Year s1 = Year s2" "DayOfYear s1 = DayOfYear s2" "Hour s1 = Hour s2"
    "Minute s1 = Minute s2" "Second s1 = Second s2" "LeapSeconds s1 = LeapSeconds s2"
    "Status s1 = Status s2" "Valid s1 = Valid s2" "Timestamp s1 = Timestamp s2"
    by simp_all
next
  assume "length data = 16 \<and> data ! 15 = 0x0D \<and>
    2000 \<le> f_year data \<and> f_year data \<le> 2099 \<and>
    1 \<le> f_dayOfYear data \<and> f_dayOfYear data \<le> 366 \<and>
    f_hour data \<le> 23 \<and> f_minute data \<le> 59 \<and> f_second data \<le> 59"
  then have "parseZ3805APacket now1 data \<noteq> None"
    by (simp add: parse_None_iff out_of_range_def)
  then show "\<exists>s. parseZ3805APacket now1 data = Some s" by blast
qed

text \<open>The telegram of day 43 of 2025, parsed at two different times.\<close>

theorem decode_deterministic_total_witness:
  "parseZ3805APacket \<lparr>unixSec = 1739362531, nsec = 250\<rparr>
     [2, 5, 0, 4, 3, 1, 2, 1, 5, 3, 0, 1, 8, 0, 0, 0x0D] =
     Some \<lparr>Year = 2025, DayOfYear = 43, Hour = 12, Minute = 15, Second = 30,
           LeapSeconds = 18, Status = GPSDOLocked, Valid = True,
           Timestamp = \<lparr>unixSec = 1739362530, nsec = 0\<rparr>,
           ParseTime = \<lparr>unixSec = 1739362531, nsec = 250\<rparr>\<rparr> \<and>
   parseZ3805APacket \<lparr>unixSec = 1739362599, nsec = 7\<rparr>
     [2, 5, 0, 4, 3, 1, 2, 1, 5, 3, 0, 1, 8, 0, 0, 0x0D] =
     Some \<lparr>Year = 2025, DayOfYear = 43, Hour = 12, Minute = 15, Second = 30,
           LeapSeconds = 18, Status = GPSDOLocked, Valid = True,
           Timestamp = \<lparr>unixSec = 1739362530, nsec = 0\<rparr>,
           ParseTime = \<lparr>unixSec = 1739362599, nsec = 7\<rparr>\<rparr> \<and>
   (\<exists>s. parseZ3805APacket \<lparr>unixSec = 1739362531, nsec = 250\<rparr>
          [2, 5, 0, 4, 3, 1, 2, 1, 5, 3, 0, 1, 8, 0, 0, 0x0D] = Some s)"
proof -
  let ?data = "[2, 5, 0, 4, 3, 1, 2, 1, 5, 3, 0, 1, 8, 0, 0, 0x0D] :: byte list"
  let ?n1 = "\<lparr>unixSec = 1739362531, nsec = 250\<rparr>"
  let ?n2 = "\<lparr>unixSec = 1739362599, nsec = 7\<rparr>"
  let ?s1 = "\<lparr>Year = 2025, DayOfYear = 43, Hour = 12, Minute = 15, Second = 30,
           LeapSeconds = 18, Status = GPSDOLocked, Valid = True,
           Timestamp = \<lparr>unixSec = 1739362530, nsec = 0\<rparr>,
           ParseTime = ?n1\<rparr>"
  have p1: "parseZ3805APacket ?n1 ?data = Some ?s1" by code_simp
  have wf: "length ?data = 16 \<and> ?data ! 15 = 0x0D \<and>
    2000 \<le> f_year ?data \<and> f_year ?data \<le> 2099 \<and>
    1 \<le> f_dayOfYear ?data \<and> f_dayOfYear ?data \<le> 366 \<and>
    f_hour ?data \<le> 23 \<and> f_minute ?data \<le> 59 \<and> f_second ?data \<le> 59"
    by (simp add: f_year_def f_dayOfYear_def f_hour_def f_minute_def f_second_def)
  note D = decode_deterministic_total [of ?n1 ?data ?n2]
  from D wf have ex1: "\<exists>s. parseZ3805APacket ?n1 ?data = Some s" by blast
  from D p1 have "parseZ3805APacket ?n2 ?data \<noteq> None" by simp
  then obtain s2 where p2: "parseZ3805APacket ?n2 ?data = Some s2" by blast
  from D p1 p2 have "?s1\<lparr>ParseTime := ParseTime s2\<rparr> = s2" by blast
  moreover have "ParseTime s2 = ?n2" using p2 by (rule parse_Some_fields(7))
  ultimately have "s2 = ?s1\<lparr>ParseTime := ?n2\<rparr>" by simp
  with p1 p2 ex1 show ?thesis by simp
qed

end
